theory Spec2Isabelle
  imports Complex_Main
begin

section \<open>Unsupervised anomaly detection engine (backend/unsupervised_engine.py)\<close>

text \<open>
  A shallow embedding of \<^verbatim>\<open>UnsupervisedAnomalyDetector\<close>. The engine's own code (the
  sample gate, feature selection, the matrix builder, the value coercer, the labelling
  loop and the exception boundary) is translated function by function. What the engine
  calls but does not contain is a parameter, collected in the record \<open>env\<close>: the
  scikit-learn estimators, the rounding of a decimal literal to a binary64 float, the
  \<^verbatim>\<open>:.2f\<close> formatting and the string hash of the running interpreter.
\<close>

subsection \<open>Values\<close>

text \<open>
  A cell of a row is \<^verbatim>\<open>None\<close>, a string, or an integer (the PDF parser stores
  \<^verbatim>\<open>page\<close>, \<^verbatim>\<open>table\<close> and \<^verbatim>\<open>line\<close> as integers). A row is a
  \<^verbatim>\<open>dict\<close>; it is kept as an association list in insertion order, which is the order
  \<^verbatim>\<open>row.items()\<close> yields.
\<close>

datatype pyval = PyNone | PyStr string | PyInt int

type_synonym row = "(string \<times> pyval) list"

text \<open>
  A Python float: a finite value, an infinity or NaN. A finite float is identified with
  the real number it denotes.
\<close>

datatype pyfloat = Fin real | PInf | NInf | NaN

datatype py_exception = IndexError | ValueError | TypeError | LibraryError

text \<open>Comparison of floats as Python does it: every comparison with NaN is false.\<close>

fun pf_gt :: "pyfloat \<Rightarrow> pyfloat \<Rightarrow> bool" where
  "pf_gt (Fin a) (Fin b) = (a > b)"
| "pf_gt PInf (Fin b) = True"
| "pf_gt PInf NInf = True"
| "pf_gt (Fin a) NInf = True"
| "pf_gt _ _ = False"

fun pf_le :: "pyfloat \<Rightarrow> pyfloat \<Rightarrow> bool" where
  "pf_le (Fin a) (Fin b) = (a \<le> b)"
| "pf_le (Fin a) PInf = True"
| "pf_le (Fin a) NInf = False"
| "pf_le PInf PInf = True"
| "pf_le PInf (Fin b) = False"
| "pf_le PInf NInf = False"
| "pf_le NInf (Fin b) = True"
| "pf_le NInf PInf = True"
| "pf_le NInf NInf = True"
| "pf_le NaN y = False"
| "pf_le x NaN = False"

subsection \<open>The environment: libraries and interpreter\<close>

type_synonym matrix = "pyfloat list list"

record 'm env =
  str_hash :: "string \<Rightarrow> nat"
  round_double :: "real \<Rightarrow> pyfloat"
  format_2f :: "pyfloat \<Rightarrow> string"
  imputer_fit_transform :: "matrix \<Rightarrow> py_exception + matrix"
  scaler_fit_transform :: "matrix \<Rightarrow> py_exception + matrix"
  iforest_fit_predict :: "real \<Rightarrow> nat \<Rightarrow> matrix \<Rightarrow> py_exception + (int list \<times> 'm)"
  iforest_decision_function :: "'m \<Rightarrow> matrix \<Rightarrow> py_exception + pyfloat list"

text \<open>
  \<^item> \<open>str_hash\<close>: the interpreter's string hash. Python randomises it per process, and
    the iteration order of a \<^verbatim>\<open>set\<close> of strings follows it.
  \<^item> \<open>round_double\<close>: the binary64 float nearest to an exact decimal value.
  \<^item> \<open>format_2f\<close>: the \<^verbatim>\<open>:.2f\<close> format.
  \<^item> \<open>imputer_fit_transform\<close>, \<open>scaler_fit_transform\<close>: \<^verbatim>\<open>SimpleImputer(strategy='mean')\<close>
    and \<^verbatim>\<open>StandardScaler()\<close>, fitted on the matrix they transform.
  \<^item> \<open>iforest_fit_predict c seed X\<close>: \<^verbatim>\<open>IsolationForest(contamination=c, random_state=seed,
    n_jobs=-1).fit_predict(X)\<close>; it returns the predictions and the fitted model \<open>'m\<close>.
  \<^item> \<open>iforest_decision_function\<close>: \<^verbatim>\<open>decision_function\<close> of the fitted model.
  Each library call either returns or raises.
\<close>

definition exn_bind :: "py_exception + 'a \<Rightarrow> ('a \<Rightarrow> py_exception + 'b) \<Rightarrow> py_exception + 'b" where
  "exn_bind m f = (case m of Inl e \<Rightarrow> Inl e | Inr x \<Rightarrow> f x)"

subsection \<open>Python's \<^verbatim>\<open>str\<close> and \<^verbatim>\<open>float\<close>\<close>

definition digit_chars :: string where
  "digit_chars = ''0123456789''"

definition is_digit :: "char \<Rightarrow> bool" where
  "is_digit c = (c \<in> set digit_chars)"

definition digit_val :: "char \<Rightarrow> nat" where
  "digit_val c = of_char c - 48"

fun str_nat :: "nat \<Rightarrow> string" where
  "str_nat n = (if n < 10 then [digit_chars ! n] else str_nat (n div 10) @ [digit_chars ! (n mod 10)])"

declare str_nat.simps [simp del]

text \<open>
  \<^verbatim>\<open>str\<close> of a cell. The limit that recent CPython versions put on the number of
  digits when an integer is converted is not modelled.
\<close>

fun str :: "pyval \<Rightarrow> string" where
  "str PyNone = ''None''"
| "str (PyStr s) = s"
| "str (PyInt i) = (if i < 0 then CHR ''-'' # str_nat (nat (- i)) else str_nat (nat i))"

text \<open>\<^verbatim>\<open>s.replace(c, '')\<close> for a one-character \<open>c\<close>.\<close>

definition remove_char :: "char \<Rightarrow> string \<Rightarrow> string" where
  "remove_char c s = filter (\<lambda>x. x \<noteq> c) s"

text \<open>
  \<^verbatim>\<open>float(s)\<close> on a string, after CPython's \<^verbatim>\<open>float_from_string\<close>: leading and trailing
  whitespace is dropped; underscores are allowed between digits only; the rest is an
  optional sign followed by \<^verbatim>\<open>inf\<close>, \<^verbatim>\<open>infinity\<close> or \<^verbatim>\<open>nan\<close> in any case, or
  by a decimal number with an optional exponent. Strings are byte strings here and only
  ASCII digits and whitespace are recognised.
\<close>

definition is_space :: "char \<Rightarrow> bool" where
  "is_space c = (c \<in> {CHR 0x09, CHR 0x0A, CHR 0x0B, CHR 0x0C, CHR 0x0D, CHR '' ''})"

definition strip :: "string \<Rightarrow> string" where
  "strip s = rev (dropWhile is_space (rev (dropWhile is_space s)))"

fun strip_underscores :: "char \<Rightarrow> string \<Rightarrow> string option" where
  "strip_underscores prev [] = (if prev = CHR ''_'' then None else Some [])"
| "strip_underscores prev (c # cs) =
     (if c = CHR ''_''
      then (if is_digit prev then strip_underscores c cs else None)
      else if prev = CHR ''_'' \<and> \<not> is_digit c then None
      else map_option ((#) c) (strip_underscores c cs))"

definition lower_char :: "char \<Rightarrow> char" where
  "lower_char c =
     (case map_of (zip ''ABCDEFGHIJKLMNOPQRSTUVWXYZ'' ''abcdefghijklmnopqrstuvwxyz'') c of
        Some l \<Rightarrow> l
      | None \<Rightarrow> c)"

definition lower :: "string \<Rightarrow> string" where
  "lower s = map lower_char s"

fun parse_sign :: "string \<Rightarrow> bool \<times> string" where
  "parse_sign [] = (False, [])"
| "parse_sign (c # cs) =
     (if c = CHR ''-'' then (True, cs)
      else if c = CHR ''+'' then (False, cs)
      else (False, c # cs))"

definition digits_val :: "string \<Rightarrow> nat" where
  "digits_val ds = foldl (\<lambda>acc c. 10 * acc + digit_val c) 0 ds"

definition scale10 :: "real \<Rightarrow> int \<Rightarrow> real" where
  "scale10 m e = (if 0 \<le> e then m * 10 ^ nat e else m / 10 ^ nat (- e))"

text \<open>
  The exponent part left after the mantissa: empty, or \<^verbatim>\<open>e\<close>/\<^verbatim>\<open>E\<close>, an optional
  sign and at least one digit up to the end of the string.
\<close>

definition parse_exponent :: "string \<Rightarrow> int option" where
  "parse_exponent s =
     (case s of
        [] \<Rightarrow> Some 0
      | c # cs \<Rightarrow>
          if c = CHR ''e'' \<or> c = CHR ''E''
          then (let (neg, ds) = parse_sign cs
                in if ds \<noteq> [] \<and> list_all is_digit ds
                   then Some (if neg then - int (digits_val ds) else int (digits_val ds))
                   else None)
          else None)"

definition parse_decimal :: "string \<Rightarrow> real option" where
  "parse_decimal s =
     (let ip = takeWhile is_digit s;
          r1 = dropWhile is_digit s;
          fp = (case r1 of [] \<Rightarrow> [] | c # cs \<Rightarrow> if c = CHR ''.'' then takeWhile is_digit cs else []);
          r2 = (case r1 of [] \<Rightarrow> [] | c # cs \<Rightarrow> if c = CHR ''.'' then dropWhile is_digit cs else r1)
      in if ip = [] \<and> fp = [] then None
         else (case parse_exponent r2 of
                 None \<Rightarrow> None
               | Some e \<Rightarrow> Some (scale10 (real (digits_val (ip @ fp))) (e - int (length fp)))))"

definition py_float :: "'m env \<Rightarrow> string \<Rightarrow> py_exception + pyfloat" where
  "py_float env s =
     (case strip_underscores (CHR 0x00) (strip s) of
        None \<Rightarrow> Inl ValueError
      | Some t \<Rightarrow>
          (let (neg, r) = parse_sign t
           in if lower r = ''inf'' \<or> lower r = ''infinity'' then Inr (if neg then NInf else PInf)
              else if lower r = ''nan'' then Inr NaN
              else (case parse_decimal r of
                      None \<Rightarrow> Inl ValueError
                    | Some x \<Rightarrow> Inr (round_double env (if neg then - x else x)))))"

subsection \<open>The value coercer: \<^verbatim>\<open>_is_numeric\<close> and \<^verbatim>\<open>_to_numeric\<close>\<close>

definition clean :: "pyval \<Rightarrow> string" where
  "clean v = remove_char (CHR '' '') (remove_char (CHR '','') (remove_char (CHR ''$'') (str v)))"

definition is_numeric :: "'m env \<Rightarrow> pyval \<Rightarrow> bool" where
  "is_numeric env v =
     (if v = PyNone then False
      else (case py_float env (clean v) of Inr x \<Rightarrow> True | Inl e \<Rightarrow> False))"

definition to_numeric :: "'m env \<Rightarrow> pyval \<Rightarrow> pyfloat option" where
  "to_numeric env v =
     (if v = PyNone then None
      else (case py_float env (clean v) of Inr x \<Rightarrow> Some x | Inl e \<Rightarrow> None))"

subsection \<open>Feature selection and the matrix builder: \<^verbatim>\<open>_extract_features\<close>\<close>

definition reserved :: "string list" where
  "reserved = [''page'', ''table'', ''row_index'', ''id'']"

definition numeric_keys :: "'m env \<Rightarrow> row \<Rightarrow> string list" where
  "numeric_keys env r =
     map fst (filter (\<lambda>(key, v). is_numeric env v \<and> lower key \<notin> set reserved) r)"

text \<open>The keys added to \<^verbatim>\<open>numeric_fields\<close>, in the order the two loops add them.\<close>

definition numeric_fields :: "'m env \<Rightarrow> row list \<Rightarrow> string list" where
  "numeric_fields env rows =
     (let sample_size = min (length rows) 50
      in concat (map (numeric_keys env) (take sample_size rows)))"

text \<open>
  \<^verbatim>\<open>list(numeric_fields)\<close>: the distinct keys, in the set's iteration order, which the
  string hash of the interpreter fixes. Sorting by the hash stands for walking the hash
  table: for a fixed hash the order is fixed, and every order of the keys comes from
  some hash.
\<close>

definition list_of_set :: "'m env \<Rightarrow> string list \<Rightarrow> string list" where
  "list_of_set env ks = sort_key (str_hash env) (remdups ks)"

definition feature_names_of :: "'m env \<Rightarrow> row list \<Rightarrow> string list" where
  "feature_names_of env rows = list_of_set env (numeric_fields env rows)"

text \<open>\<^verbatim>\<open>row.get(field)\<close>: \<^verbatim>\<open>None\<close> for a missing key.\<close>

definition row_get :: "row \<Rightarrow> string \<Rightarrow> pyval" where
  "row_get r field = (case map_of r field of None \<Rightarrow> PyNone | Some v \<Rightarrow> v)"

definition row_features :: "'m env \<Rightarrow> string list \<Rightarrow> row \<Rightarrow> pyfloat list" where
  "row_features env feature_names r =
     map (\<lambda>field. case to_numeric env (row_get r field) of Some val \<Rightarrow> val | None \<Rightarrow> NaN)
       feature_names"

definition has_data :: "'m env \<Rightarrow> string list \<Rightarrow> row \<Rightarrow> bool" where
  "has_data env feature_names r =
     list_ex (\<lambda>field. to_numeric env (row_get r field) \<noteq> None) feature_names"

text \<open>The loop over \<^verbatim>\<open>enumerate(rows)\<close>, from index \<open>i\<close> on.\<close>

fun build_matrix :: "'m env \<Rightarrow> string list \<Rightarrow> nat \<Rightarrow> row list \<Rightarrow> matrix \<times> nat list" where
  "build_matrix env feature_names i [] = ([], [])"
| "build_matrix env feature_names i (r # rs) =
     (let (features, valid_indices) = build_matrix env feature_names (Suc i) rs
      in if has_data env feature_names r
         then (row_features env feature_names r # features, i # valid_indices)
         else (features, valid_indices))"

definition extract_features :: "'m env \<Rightarrow> row list \<Rightarrow> matrix \<times> nat list \<times> string list" where
  "extract_features env rows =
     (let feature_names = feature_names_of env rows
      in if feature_names = [] then ([], [], [])
         else (let (features, valid_indices) = build_matrix env feature_names 0 rows
               in (features, valid_indices, feature_names)))"

subsection \<open>The detector\<close>

record config =
  ml_contamination :: "real option"
  ml_min_samples :: "int option"

record detector =
  contamination :: real
  min_samples :: int
  random_state :: nat

text \<open>\<^verbatim>\<open>__init__\<close>: a missing configuration or a missing key gives the default.\<close>

definition init :: "config option \<Rightarrow> detector" where
  "init cfg =
     \<lparr> contamination =
         (case cfg of None \<Rightarrow> 5 / 100
          | Some c \<Rightarrow> (case ml_contamination c of None \<Rightarrow> 5 / 100 | Some x \<Rightarrow> x)),
       min_samples =
         (case cfg of None \<Rightarrow> 20
          | Some c \<Rightarrow> (case ml_min_samples c of None \<Rightarrow> 20 | Some n \<Rightarrow> n)),
       random_state = 42 \<rparr>"

record evidence =
  algorithm :: string
  anomaly_score :: pyfloat
  key_feature :: string
  feature_value :: pyfloat
  z_score_approx :: pyfloat

record anomaly =
  row_index :: nat
  anomaly_type :: string
  severity :: string
  description :: string
  raw_json :: row
  evidence :: evidence

text \<open>Indexing a list or an array: out of range raises \<^verbatim>\<open>IndexError\<close>.\<close>

definition item :: "'a list \<Rightarrow> nat \<Rightarrow> py_exception + 'a" where
  "item xs i = (if i < length xs then Inr (xs ! i) else Inl IndexError)"

fun np_abs :: "pyfloat \<Rightarrow> pyfloat" where
  "np_abs (Fin x) = Fin \<bar>x\<bar>"
| "np_abs PInf = PInf"
| "np_abs NInf = PInf"
| "np_abs NaN = NaN"

text \<open>
  \<^verbatim>\<open>np.argmax\<close>: the first index of the maximum, a NaN counting as the maximum; the
  argument \<open>mp\<close> is the best value so far, \<open>best\<close> its index and \<open>i\<close> the index of the
  next element. An empty array raises \<^verbatim>\<open>ValueError\<close>.
\<close>

fun argmax_from :: "pyfloat \<Rightarrow> nat \<Rightarrow> nat \<Rightarrow> pyfloat list \<Rightarrow> nat" where
  "argmax_from mp best i [] = best"
| "argmax_from mp best i (x # xs) =
     (if mp = NaN then best
      else if \<not> pf_le x mp then argmax_from x i (Suc i) xs
      else argmax_from mp best (Suc i) xs)"

definition np_argmax :: "pyfloat list \<Rightarrow> py_exception + nat" where
  "np_argmax xs = (case xs of [] \<Rightarrow> Inl ValueError | x # rest \<Rightarrow> Inr (argmax_from x 0 1 rest))"

definition severity_of :: "pyfloat \<Rightarrow> string" where
  "severity_of score = (if pf_gt score (Fin (- (1 / 10))) then ''medium'' else ''high'')"

text \<open>The body of the labelling loop for a row predicted \<open>-1\<close>, at matrix index \<open>i\<close>.\<close>

definition label_row ::
  "'m env \<Rightarrow> row list \<Rightarrow> nat list \<Rightarrow> string list \<Rightarrow> matrix \<Rightarrow> matrix \<Rightarrow> pyfloat list \<Rightarrow> nat
    \<Rightarrow> py_exception + anomaly" where
  "label_row env rows row_indices feature_names X_imputed X_scaled scores i =
     exn_bind (item row_indices i) (\<lambda>row_idx.
     exn_bind (item scores i) (\<lambda>score.
     exn_bind (item X_scaled i) (\<lambda>row_scaled.
     exn_bind (np_argmax (map np_abs row_scaled)) (\<lambda>max_dev_idx.
     exn_bind (item feature_names max_dev_idx) (\<lambda>key_feature.
     exn_bind (item X_imputed i) (\<lambda>row_imputed.
     exn_bind (item row_imputed max_dev_idx) (\<lambda>key_value.
     exn_bind (item rows row_idx) (\<lambda>raw.
     exn_bind (item row_scaled max_dev_idx) (\<lambda>z.
       Inr \<lparr> row_index = row_idx,
             anomaly_type = ''ml_outlier'',
             severity = severity_of score,
             description = ''Statistical outlier detected by ML model. Unusual ''
                             @ key_feature @ '': '' @ format_2f env key_value,
             raw_json = raw,
             evidence = \<lparr> algorithm = ''isolation_forest'',
                          anomaly_score = score,
                          key_feature = key_feature,
                          feature_value = key_value,
                          z_score_approx = z \<rparr> \<rparr>)))))))))"

text \<open>The loop over \<^verbatim>\<open>enumerate(predictions)\<close>, from index \<open>i\<close> on.\<close>

fun label_loop ::
  "'m env \<Rightarrow> row list \<Rightarrow> nat list \<Rightarrow> string list \<Rightarrow> matrix \<Rightarrow> matrix \<Rightarrow> pyfloat list \<Rightarrow> nat
    \<Rightarrow> int list \<Rightarrow> py_exception + anomaly list" where
  "label_loop env rows row_indices feature_names X_imputed X_scaled scores i [] = Inr []"
| "label_loop env rows row_indices feature_names X_imputed X_scaled scores i (prediction # ps) =
     (if prediction = - 1
      then exn_bind (label_row env rows row_indices feature_names X_imputed X_scaled scores i)
             (\<lambda>a. exn_bind
                    (label_loop env rows row_indices feature_names X_imputed X_scaled scores (Suc i) ps)
                    (\<lambda>rest. Inr (a # rest)))
      else label_loop env rows row_indices feature_names X_imputed X_scaled scores (Suc i) ps)"

text \<open>Steps 2 and 3 of \<^verbatim>\<open>detect_anomalies\<close>: imputation, scaling, fitting and scoring.\<close>

definition run_model ::
  "'m env \<Rightarrow> detector \<Rightarrow> matrix \<Rightarrow> py_exception + (matrix \<times> matrix \<times> int list \<times> pyfloat list)" where
  "run_model env d X =
     exn_bind (imputer_fit_transform env X) (\<lambda>X_imputed.
     exn_bind (scaler_fit_transform env X_imputed) (\<lambda>X_scaled.
     exn_bind (iforest_fit_predict env (contamination d) (random_state d) X_scaled)
       (\<lambda>(predictions, iso_forest).
     exn_bind (iforest_decision_function env iso_forest X_scaled) (\<lambda>scores.
       Inr (X_imputed, X_scaled, predictions, scores)))))"

text \<open>The body of the \<^verbatim>\<open>try\<close> block.\<close>

definition detect_body :: "'m env \<Rightarrow> detector \<Rightarrow> row list \<Rightarrow> py_exception + anomaly list" where
  "detect_body env d rows =
     (let (features, row_indices, feature_names) = extract_features env rows
      in if features = [] then Inr []
         else exn_bind (run_model env d features)
                (\<lambda>(X_imputed, X_scaled, predictions, scores).
                   label_loop env rows row_indices feature_names X_imputed X_scaled scores 0
                     predictions))"

definition detect_anomalies :: "'m env \<Rightarrow> detector \<Rightarrow> row list \<Rightarrow> anomaly list" where
  "detect_anomalies env d rows =
     (if rows = [] \<or> int (length rows) < min_samples d then []
      else (case detect_body env d rows of Inl e \<Rightarrow> [] | Inr anomalies \<Rightarrow> anomalies))"

text \<open>The matrix indices of the rows predicted \<open>-1\<close>, counted from \<open>i\<close>.\<close>

definition flagged :: "nat \<Rightarrow> int list \<Rightarrow> nat list" where
  "flagged i ps = map fst (filter (\<lambda>(j, p). p = - 1) (enumerate i ps))"

subsection \<open>A stand-in library and concrete inputs\<close>

text \<open>
  To run the engine on concrete rows the environment has to be filled in. \<open>stub_env h\<close>
  is a small stand-in for the libraries: the imputer rejects a matrix that holds an
  infinity (as scikit-learn's input validation does) and fills a missing cell with 0;
  the scaler is the identity; the forest predicts \<open>-1\<close> with decision score \<open>-0.1\<close>
  for a row that has a cell of absolute value above 1000, and \<open>1\<close> with score \<open>0.1\<close>
  for every other row. The string hash \<open>h\<close> is left open.
\<close>

definition outlying :: "pyfloat list \<Rightarrow> bool" where
  "outlying r = list_ex (\<lambda>x. pf_gt (np_abs x) (Fin 1000)) r"

definition has_inf :: "matrix \<Rightarrow> bool" where
  "has_inf X = list_ex (list_ex (\<lambda>x. x = PInf \<or> x = NInf)) X"

definition stub_env :: "(string \<Rightarrow> nat) \<Rightarrow> unit env" where
  "stub_env h =
     \<lparr> str_hash = h,
       round_double = Fin,
       format_2f = (\<lambda>x. ''#.##''),
       imputer_fit_transform =
         (\<lambda>X. if has_inf X then Inl ValueError
              else Inr (map (map (\<lambda>x. if x = NaN then Fin 0 else x)) X)),
       scaler_fit_transform = Inr,
       iforest_fit_predict = (\<lambda>c seed X. Inr (map (\<lambda>r. if outlying r then - 1 else 1) X, ())),
       iforest_decision_function =
         (\<lambda>m X. Inr (map (\<lambda>r. if outlying r then Fin (- (1 / 10)) else Fin (1 / 10)) X)) \<rparr>"

text \<open>Two string hashes that order the keys \<^verbatim>\<open>A\<close> and \<^verbatim>\<open>B\<close> differently.\<close>

definition hash1 :: "string \<Rightarrow> nat" where
  "hash1 s = (if s = ''A'' then 0 else 1)"

definition hash2 :: "string \<Rightarrow> nat" where
  "hash2 s = (if s = ''A'' then 1 else 0)"

text \<open>Twenty rows with one numeric column, the last one far from the others.\<close>

definition amount_rows :: "row list" where
  "amount_rows =
     replicate 19 [(''Amount'', PyStr ''100'')] @ [[(''Amount'', PyStr ''$100,000.00'')]]"

text \<open>Twenty identical rows.\<close>

definition flat_rows :: "row list" where
  "flat_rows = replicate 20 [(''Amount'', PyStr ''100'')]"

text \<open>Twenty rows with two columns that agree in every row.\<close>

definition pair_rows :: "row list" where
  "pair_rows =
     replicate 19 [(''A'', PyStr ''100''), (''B'', PyStr ''100'')]
       @ [[(''A'', PyStr ''100000''), (''B'', PyStr ''100000'')]]"

text \<open>Twenty rows, the last of which holds the string \<^verbatim>\<open>inf\<close>.\<close>

definition inf_rows :: "row list" where
  "inf_rows = replicate 19 [(''Amount'', PyStr ''100'')] @ [[(''Amount'', PyStr ''inf'')]]"

text \<open>Fifteen numeric rows, and twenty rows without a numeric column.\<close>

definition short_rows :: "row list" where
  "short_rows = replicate 15 [(''Amount'', PyStr ''100'')]"

definition category_rows :: "row list" where
  "category_rows = replicate 20 [(''Category'', PyStr ''Expense'')]"

text \<open>A detector configured with contamination 0.5.\<close>

definition half_detector :: detector where
  "half_detector = init (Some \<lparr> ml_contamination = Some (1 / 2), ml_min_samples = None \<rparr>)"

text \<open>The record the stand-in library yields for the last row of \<open>amount_rows\<close>.\<close>

definition amount_anomaly :: anomaly where
  "amount_anomaly =
     \<lparr> row_index = 19, anomaly_type = ''ml_outlier'', severity = ''high'',
        description = ''Statistical outlier detected by ML model. Unusual Amount: #.##'',
        raw_json = [(''Amount'', PyStr ''$100,000.00'')],
        evidence = \<lparr> algorithm = ''isolation_forest'', anomaly_score = Fin (- (1 / 10)),
                     key_feature = ''Amount'', feature_value = Fin 100000,
                     z_score_approx = Fin 100000 \<rparr> \<rparr>"

subsection \<open>The contamination cutoff\<close>

text \<open>
  Modelled from the spec: the isolation forest of scikit-learn is not part of the
  repository. Section 4.5 gives its cutoff: the threshold is the
  \<^verbatim>\<open>contamination\<close>-quantile of the scores, not a fixed number. \<open>quantile q xs\<close> is
  that quantile of the scores \<open>xs\<close>: the value at rank \<open>q * (n - 1)\<close> of the sorted
  scores, interpolated linearly between the two neighbouring ranks.
\<close>

definition quantile :: "real \<Rightarrow> real list \<Rightarrow> real" where
  "quantile q xs =
     (let a = sort xs;
          h = q * real (length xs - 1);
          lo = nat \<lfloor>h\<rfloor>;
          hi = min (Suc lo) (length xs - 1)
      in a ! lo + (h - real lo) * (a ! hi - a ! lo))"

text \<open>
  Modelled from the spec: fitting and predicting with that cutoff. The raw scores of the
  fitted ensemble, \<open>score seed X\<close>, stay a parameter. A row is predicted \<open>-1\<close> when its
  score minus the cutoff is negative. An input without rows is refused, and so is a
  contamination outside the range from 0 to 1, which has no quantile.
\<close>

definition cutoff_fit_predict ::
  "(nat \<Rightarrow> matrix \<Rightarrow> py_exception + real list) \<Rightarrow> real \<Rightarrow> nat \<Rightarrow> matrix
     \<Rightarrow> py_exception + (int list \<times> (nat \<times> real))" where
  "cutoff_fit_predict score c seed X =
     exn_bind (score seed X) (\<lambda>raw.
       if raw = [] \<or> c < 0 \<or> 1 < c then Inl ValueError
       else (let offset = quantile c raw
             in Inr (map (\<lambda>s. if s - offset < 0 then - 1 else 1) raw, (seed, offset))))"

text \<open>
  Modelled from the spec: the decision score of a row is its raw score minus the cutoff,
  so that lower means more anomalous and the rows predicted \<open>-1\<close> are the negative ones.
\<close>

definition cutoff_decision_function ::
  "(nat \<Rightarrow> matrix \<Rightarrow> py_exception + real list) \<Rightarrow> nat \<times> real \<Rightarrow> matrix
     \<Rightarrow> py_exception + pyfloat list" where
  "cutoff_decision_function score m X =
     exn_bind (score (fst m) X) (\<lambda>raw. Inr (map (\<lambda>s. Fin (s - snd m)) raw))"

text \<open>
  Modelled from the spec: an environment whose forest is the one above; the other
  fields are those of \<open>env\<close>.
\<close>

definition cutoff_env ::
  "(nat \<Rightarrow> matrix \<Rightarrow> py_exception + real list) \<Rightarrow> 'm env \<Rightarrow> (nat \<times> real) env" where
  "cutoff_env score env =
     \<lparr> str_hash = str_hash env,
       round_double = round_double env,
       format_2f = format_2f env,
       imputer_fit_transform = imputer_fit_transform env,
       scaler_fit_transform = scaler_fit_transform env,
       iforest_fit_predict = cutoff_fit_predict score,
       iforest_decision_function = cutoff_decision_function score \<rparr>"

text \<open>
  Two raw scorings for concrete runs: one gives every row the same score, the other
  sets the rows with a cell above 1000 apart.
\<close>

definition tied_score :: "nat \<Rightarrow> matrix \<Rightarrow> py_exception + real list" where
  "tied_score seed X = Inr (map (\<lambda>r. - (1 / 2)) X)"

definition far_score :: "nat \<Rightarrow> matrix \<Rightarrow> py_exception + real list" where
  "far_score seed X = Inr (map (\<lambda>r. if outlying r then - (7 / 10) else - (1 / 2)) X)"

section \<open>Properties\<close>

subsection \<open>Exceptions and indexing\<close>

lemma exn_bind_Inr:
  "exn_bind m f = Inr y \<longleftrightarrow> (\<exists>x. m = Inr x \<and> f x = Inr y)"
  by (cases m) (simp_all add: exn_bind_def)

lemma exn_bind_Inl:
  "exn_bind m f = Inl e \<longleftrightarrow> m = Inl e \<or> (\<exists>x. m = Inr x \<and> f x = Inl e)"
  by (cases m) (simp_all add: exn_bind_def)

lemma item_Inr: "item xs i = Inr x \<longleftrightarrow> i < length xs \<and> xs ! i = x"
  by (simp add: item_def)

subsection \<open>Feature selection\<close>

lemma set_list_of_set: "set (list_of_set env ks) = set ks"
  by (simp add: list_of_set_def)

lemma distinct_list_of_set: "distinct (list_of_set env ks)"
  by (simp add: list_of_set_def)

lemma extract_features_names:
  "snd (snd (extract_features env rows)) = feature_names_of env rows"
  by (simp add: extract_features_def Let_def split: prod.splits)

subsection \<open>The matrix builder\<close>

lemma build_matrix_enumerate:
  "build_matrix env fs i rows =
     (map (row_features env fs \<circ> snd) (filter (has_data env fs \<circ> snd) (enumerate i rows)),
      map fst (filter (has_data env fs \<circ> snd) (enumerate i rows)))"
  by (induction rows arbitrary: i) (simp_all add: Let_def)

lemma sorted_fst_filter_enumerate:
  "sorted_wrt (<) (map fst (filter P (enumerate i xs)))"
proof -
  have "sorted_wrt (<) (map fst (enumerate i xs))"
    by simp
  then have "sorted_wrt (\<lambda>x y. fst x < fst y) (enumerate i xs)"
    by (simp only: sorted_wrt_map)
  then have "sorted_wrt (\<lambda>x y. fst x < fst y) (filter P (enumerate i xs))"
    by (rule sorted_wrt_filter)
  then show ?thesis
    by (simp only: sorted_wrt_map)
qed

lemma fst_filter_enumerate_bounds:
  "j \<in> set (map fst (filter P (enumerate i xs))) \<Longrightarrow> i \<le> j \<and> j < i + length xs"
  by (auto simp: in_set_enumerate_eq)

lemma build_matrix_shape:
  assumes "build_matrix env fs i rows = (F, V)"
  shows "length F = length V" and "sorted_wrt (<) V"
    and "\<And>v. v \<in> set V \<Longrightarrow> i \<le> v \<and> v < i + length rows"
  using assms sorted_fst_filter_enumerate [of "has_data env fs \<circ> snd" i rows]
    fst_filter_enumerate_bounds [of _ "has_data env fs \<circ> snd" i rows]
  by (auto simp: build_matrix_enumerate)

lemma extract_features_nonempty:
  assumes "extract_features env rows = (F, V, fs)" and "F \<noteq> []"
  shows "fs = feature_names_of env rows" and "fs \<noteq> []"
    and "build_matrix env fs 0 rows = (F, V)"
  using assms by (auto simp: extract_features_def Let_def split: if_splits prod.splits)

subsection \<open>The labelling loop\<close>

lemma sorted_flagged: "sorted_wrt (<) (flagged i ps)"
  unfolding flagged_def by (rule sorted_fst_filter_enumerate)

lemma length_flagged: "length (flagged i ps) = length (filter (\<lambda>p. p = - 1) ps)"
  by (induction ps arbitrary: i) (simp_all add: flagged_def)

lemma flagged_bounds:
  "j \<in> set (flagged i ps) \<Longrightarrow> i \<le> j \<and> j < i + length ps \<and> ps ! (j - i) = - 1"
  by (auto simp: flagged_def in_set_enumerate_eq)

lemma label_loop_Inr:
  "label_loop env rows ri fs Xi Xs sc i ps = Inr as \<Longrightarrow>
     list_all2 (\<lambda>j a. label_row env rows ri fs Xi Xs sc j = Inr a) (flagged i ps) as"
proof (induction ps arbitrary: i as)
  case Nil
  then show ?case by (simp add: flagged_def)
next
  case (Cons p ps)
  show ?case
  proof (cases "p = - 1")
    case True
    with Cons.prems obtain a rest where
      a: "label_row env rows ri fs Xi Xs sc i = Inr a"
      and rest: "label_loop env rows ri fs Xi Xs sc (Suc i) ps = Inr rest"
      and as: "as = a # rest"
      by (auto simp: exn_bind_Inr)
    from Cons.IH [OF rest] a as True show ?thesis
      by (simp add: flagged_def)
  next
    case False
    with Cons.prems have "label_loop env rows ri fs Xi Xs sc (Suc i) ps = Inr as"
      by simp
    from Cons.IH [OF this] False show ?thesis
      by (simp add: flagged_def)
  qed
qed

lemma label_row_Inr:
  assumes "label_row env rows ri fs Xi Xs sc i = Inr a"
  shows "i < length ri" and "row_index a = ri ! i"
    and "i < length sc" and "anomaly_score (evidence a) = sc ! i"
    and "severity a = severity_of (sc ! i)"
    and "ri ! i < length rows" and "raw_json a = rows ! (ri ! i)"
    and "anomaly_type a = ''ml_outlier''"
  using assms by (auto simp: label_row_def exn_bind_Inr item_Inr)

lemma list_all2_set_right:
  "list_all2 P xs ys \<Longrightarrow> y \<in> set ys \<Longrightarrow> \<exists>x\<in>set xs. P x y"
  by (induction rule: list_all2_induct) auto

lemma sorted_map_nth:
  "list_all2 (\<lambda>j a. j < length V \<and> f a = V ! j) js as \<Longrightarrow>
     sorted_wrt (<) js \<Longrightarrow> sorted_wrt (<) V \<Longrightarrow> sorted_wrt (<) (map f as)"
proof (induction rule: list_all2_induct)
  case Nil
  then show ?case by simp
next
  case (Cons j js a as)
  have "f a < f a'" if "a' \<in> set as" for a'
  proof -
    from list_all2_set_right [OF Cons.hyps(2) that]
    obtain j' where j': "j' \<in> set js" "j' < length V" "f a' = V ! j'" by auto
    with Cons.prems(1) have "j < j'" by auto
    with Cons.prems(2) j' have "V ! j < V ! j'"
      by (simp add: sorted_wrt_nth_less)
    with Cons.hyps(1) j' show ?thesis by simp
  qed
  with Cons show ?case by auto
qed

subsection \<open>The shape of a run\<close>

lemma detect_anomalies_cases:
  "detect_anomalies env d rows = [] \<or>
   (\<exists>F V fs Xi Xs ps sc.
      extract_features env rows = (F, V, fs) \<and> F \<noteq> [] \<and>
      rows \<noteq> [] \<and> \<not> int (length rows) < min_samples d \<and>
      run_model env d F = Inr (Xi, Xs, ps, sc) \<and>
      label_loop env rows V fs Xi Xs sc 0 ps = Inr (detect_anomalies env d rows))"
  by (auto simp: detect_anomalies_def detect_body_def exn_bind_def
      split: sum.splits prod.splits)

subsection \<open>Output order\<close>

text \<open>
  Claim C9. For every input, the returned anomaly records are in strictly ascending
  order of \<open>row_index\<close>: flagged rows appear in the order they have in the input.
\<close>

theorem row_index_strictly_ascending:
  "sorted_wrt (<) (map row_index (detect_anomalies env d rows))"
proof -
  consider "detect_anomalies env d rows = []"
    | F V fs Xi Xs ps sc where "extract_features env rows = (F, V, fs)" "F \<noteq> []"
      "label_loop env rows V fs Xi Xs sc 0 ps = Inr (detect_anomalies env d rows)"
    using detect_anomalies_cases [of env d rows] by blast
  then show ?thesis
  proof cases
    case 1
    then show ?thesis by simp
  next
    case 2
    from extract_features_nonempty [OF 2(1,2)] have "sorted_wrt (<) V"
      using build_matrix_shape(2) by blast
    moreover have "list_all2 (\<lambda>j a. j < length V \<and> row_index a = V ! j)
        (flagged 0 ps) (detect_anomalies env d rows)"
      using label_loop_Inr [OF 2(3)]
      by (rule list_all2_mono) (simp add: label_row_Inr)
    ultimately show ?thesis
      using sorted_flagged sorted_map_nth by blast
  qed
qed

subsection \<open>Evaluation on concrete cells and rows\<close>

lemmas float_defs = py_float_def strip_def is_space_def is_digit_def digit_chars_def lower_def
  lower_char_def parse_decimal_def parse_exponent_def digits_val_def digit_val_def scale10_def
  clean_def remove_char_def

lemma float_100: "py_float env (clean (PyStr ''100'')) = Inr (round_double env 100)"
  by (simp add: float_defs)

lemma float_100000: "py_float env (clean (PyStr ''100000'')) = Inr (round_double env 100000)"
  by (simp add: float_defs)

lemma float_dollar: "py_float env (clean (PyStr ''$100,000.00'')) = Inr (round_double env 100000)"
  by (simp add: float_defs)

lemma float_inf: "py_float env (clean (PyStr ''inf'')) = Inr PInf"
  by (simp add: float_defs)

lemma float_infinity: "py_float env (clean (PyStr ''infinity'')) = Inr PInf"
  by (simp add: float_defs)

lemma float_nan: "py_float env (clean (PyStr ''nan'')) = Inr NaN"
  by (simp add: float_defs)

lemma float_expense: "py_float env (clean (PyStr ''Expense'')) = Inl ValueError"
  by (simp add: float_defs)

lemmas cell_simps = float_100 float_100000 float_dollar float_inf float_infinity float_nan float_expense

lemma lower_amount: "lower ''Amount'' \<notin> set reserved" "lower ''A'' \<notin> set reserved"
   "lower ''B'' \<notin> set reserved" "lower ''Category'' \<notin> set reserved"
  by (simp_all add: lower_def lower_char_def reserved_def)


lemma build_matrix_all_data:
  "list_all (has_data env fs) rows \<Longrightarrow>
     build_matrix env fs i rows = (map (row_features env fs) rows, [i..<i + length rows])"
  by (induction rows arbitrary: i) (simp_all add: upt_rec)

lemma remdups_absorb: "set xs \<subseteq> set ys \<Longrightarrow> remdups (xs @ ys) = remdups ys"
  by (induction xs) auto

lemma label_loop_skip:
  "label_loop env rows ri fs Xi Xs sc i (replicate n 1 @ ps) =
     label_loop env rows ri fs Xi Xs sc (i + n) ps"
  by (induction n arbitrary: i) simp_all

lemma numeric_fields_sample:
  "length rows \<le> 50 \<Longrightarrow> numeric_fields env rows = concat (map (numeric_keys env) rows)"
  by (simp add: numeric_fields_def)

lemma stub_format: "format_2f (stub_env h) x = ''#.##''"
  by (simp add: stub_env_def)

lemma names_amount: "feature_names_of (stub_env h) amount_rows = [''Amount'']"
  by (simp add: feature_names_of_def list_of_set_def numeric_fields_sample numeric_keys_def
      amount_rows_def is_numeric_def cell_simps lower_amount remdups_absorb)

lemma extract_amount:
  "extract_features (stub_env h) amount_rows =
     (replicate 19 [Fin 100] @ [[Fin 100000]], [0..<20], [''Amount''])"
proof -
  have "list_all (has_data (stub_env h) [''Amount'']) amount_rows"
    by (simp add: amount_rows_def has_data_def row_get_def to_numeric_def cell_simps list_all_iff)
  from build_matrix_all_data [OF this, of 0] show ?thesis
    by (simp add: extract_features_def names_amount)
       (simp add: amount_rows_def row_features_def row_get_def to_numeric_def cell_simps
         stub_env_def)
qed

lemma run_model_amount:
  "run_model (stub_env h) d (replicate 19 [Fin 100] @ [[Fin 100000]]) =
     Inr (replicate 19 [Fin 100] @ [[Fin 100000]], replicate 19 [Fin 100] @ [[Fin 100000]],
          replicate 19 1 @ [- 1], replicate 19 (Fin (1 / 10)) @ [Fin (- (1 / 10))])"
  by (simp add: run_model_def stub_env_def exn_bind_def has_inf_def outlying_def list_ex_iff)

lemma detect_amount:
  "detect_anomalies (stub_env h) (init None) amount_rows =
     [\<lparr> row_index = 19, anomaly_type = ''ml_outlier'', severity = ''high'',
        description = ''Statistical outlier detected by ML model. Unusual Amount: #.##'',
        raw_json = [(''Amount'', PyStr ''$100,000.00'')],
        evidence = \<lparr> algorithm = ''isolation_forest'', anomaly_score = Fin (- (1 / 10)),
                     key_feature = ''Amount'', feature_value = Fin 100000,
                     z_score_approx = Fin 100000 \<rparr> \<rparr>]"
proof -
  have len: "length amount_rows = 20" and last: "amount_rows ! 19 = [(''Amount'', PyStr ''$100,000.00'')]"
    by (simp_all add: amount_rows_def nth_append)
  have "detect_body (stub_env h) (init None) amount_rows = Inr
     [\<lparr> row_index = 19, anomaly_type = ''ml_outlier'', severity = ''high'',
        description = ''Statistical outlier detected by ML model. Unusual Amount: #.##'',
        raw_json = [(''Amount'', PyStr ''$100,000.00'')],
        evidence = \<lparr> algorithm = ''isolation_forest'', anomaly_score = Fin (- (1 / 10)),
                     key_feature = ''Amount'', feature_value = Fin 100000,
                     z_score_approx = Fin 100000 \<rparr> \<rparr>]"
    by (simp add: detect_body_def extract_amount run_model_amount label_loop_skip
         exn_bind_def label_row_def item_def nth_append len last np_argmax_def
         severity_of_def stub_format)
  then show ?thesis
    using len by (auto simp: detect_anomalies_def init_def)
qed

subsection \<open>Sample gate, exception boundary and feature selection\<close>

text \<open>
  Claim C6. \<open>detect_anomalies\<close> returns the empty sequence whenever the input has fewer
  rows than \<open>min_samples\<close> (20 when the configuration does not set it) or feature
  selection yields no numeric feature column. The result type has no error case: the
  function returns a list for every input.
\<close>

theorem insufficient_data_is_no_op:
  "min_samples (init None) = 20 \<and>
   (int (length rows) < min_samples d \<or> snd (snd (extract_features env rows)) = []
      \<longrightarrow> detect_anomalies env d rows = [])"
  by (auto simp: init_def detect_anomalies_def detect_body_def extract_features_def Let_def
      split: prod.splits if_splits sum.splits)

text \<open>
  Claim C7. No fault leaves \<open>detect_anomalies\<close>. Whichever stage raises (the imputer,
  the scaler, fitting and predicting, scoring, or the labelling loop) the call returns
  the empty sequence. Feature extraction has no failing branch of its own: the coercer
  turns a parse error into a missing value.
\<close>

theorem faults_degrade_to_empty:
  assumes "extract_features env rows = (F, V, fs)"
    and "imputer_fit_transform env F = Inl e
       \<or> (\<exists>Xi. imputer_fit_transform env F = Inr Xi \<and>
            (scaler_fit_transform env Xi = Inl e
           \<or> (\<exists>Xs. scaler_fit_transform env Xi = Inr Xs \<and>
                (iforest_fit_predict env (contamination d) (random_state d) Xs = Inl e
               \<or> (\<exists>ps m. iforest_fit_predict env (contamination d) (random_state d) Xs = Inr (ps, m) \<and>
                    (iforest_decision_function env m Xs = Inl e
                   \<or> (\<exists>sc. iforest_decision_function env m Xs = Inr sc \<and>
                        label_loop env rows V fs Xi Xs sc 0 ps = Inl e)))))))"
  shows "detect_anomalies env d rows = []"
  using assms
  by (auto simp: detect_anomalies_def detect_body_def run_model_def exn_bind_def)

lemma numeric_keys_iff:
  "k \<in> set (numeric_keys env r) \<longleftrightarrow>
     (\<exists>v. (k, v) \<in> set r \<and> is_numeric env v \<and> lower k \<notin> set reserved)"
  by (force simp: numeric_keys_def)

lemma feature_names_take:
  "feature_names_of env (take 50 rows) = feature_names_of env rows"
  by (simp add: feature_names_of_def numeric_fields_def min_def)

text \<open>
  Claim C8. A column name is in the selected feature set exactly when, in one of the
  first \<open>min (length rows) 50\<close> rows, the column holds a value that coerces to a number
  and the lower-cased name is not reserved. Rows beyond the sample do not change the set.
\<close>

theorem feature_selection_by_sample:
  "(k \<in> set (snd (snd (extract_features env rows))) \<longleftrightarrow>
      (\<exists>r \<in> set (take (min (length rows) 50) rows).
         \<exists>v. (k, v) \<in> set r \<and> is_numeric env v \<and> lower k \<notin> set reserved))
   \<and> snd (snd (extract_features env rows)) = snd (snd (extract_features env (take 50 rows)))"
  by (simp add: extract_features_names feature_names_take)
     (auto simp: feature_names_of_def set_list_of_set numeric_fields_def numeric_keys_iff)

subsection \<open>The coercer on NaN and infinity, and severity\<close>

lemma to_numeric_special:
  "to_numeric env (PyStr ''nan'') = Some NaN"
  "to_numeric env (PyStr ''inf'') = Some PInf"
  "to_numeric env (PyStr ''infinity'') = Some PInf"
  by (simp_all add: to_numeric_def cell_simps)

lemma build_matrix_includes:
  assumes "build_matrix env fs 0 rows = (F, V)" and "i < length rows"
    and "has_data env fs (rows ! i)"
  shows "\<exists>j<length F. V ! j = i \<and> F ! j = row_features env fs (rows ! i)"
proof -
  let ?ps = "filter (has_data env fs \<circ> snd) (enumerate 0 rows)"
  from assms(2,3) have "(i, rows ! i) \<in> set ?ps"
    by (simp add: in_set_enumerate_eq)
  then obtain j where j: "j < length ?ps" "?ps ! j = (i, rows ! i)"
    unfolding in_set_conv_nth by blast
  from assms(1) have F: "F = map (row_features env fs \<circ> snd) ?ps" and V: "V = map fst ?ps"
    by (simp_all add: build_matrix_enumerate)
  from j show ?thesis
    unfolding F V by (intro exI [of _ j]) simp
qed

text \<open>
  Claim C10. The coercer maps the strings \<^verbatim>\<open>nan\<close>, \<^verbatim>\<open>inf\<close> and \<^verbatim>\<open>infinity\<close> to a
  float NaN or infinity, not to a missing value. A row whose feature cells all hold such
  strings therefore counts as having data: it is a row of the matrix, and its original
  index is in the index map.
\<close>

theorem nan_inf_cells_count_as_data:
  assumes "extract_features env rows = (F, V, fs)" and "fs \<noteq> []" and "i < length rows"
    and "\<forall>f \<in> set fs. row_get (rows ! i) f \<in> {PyStr ''nan'', PyStr ''inf'', PyStr ''infinity''}"
  shows "to_numeric env (PyStr ''nan'') = Some NaN
       \<and> to_numeric env (PyStr ''inf'') = Some PInf
       \<and> to_numeric env (PyStr ''infinity'') = Some PInf
       \<and> has_data env fs (rows ! i)
       \<and> (\<exists>j<length F. V ! j = i \<and> F ! j = row_features env fs (rows ! i)
                        \<and> set (F ! j) \<subseteq> {NaN, PInf})"
proof -
  from assms(2) obtain f where f: "f \<in> set fs" by (cases fs) auto
  have cell: "to_numeric env (row_get (rows ! i) g) \<in> {Some NaN, Some PInf}" if "g \<in> set fs" for g
    using assms(4) that to_numeric_special [of env] by auto
  from cell [OF f] f have data: "has_data env fs (rows ! i)"
    by (auto simp: has_data_def list_ex_iff)
  from assms(1,2) have "build_matrix env fs 0 rows = (F, V)"
    by (auto simp: extract_features_def Let_def split: if_splits prod.splits)
  from build_matrix_includes [OF this assms(3) data]
  obtain j where j: "j < length F" "V ! j = i" "F ! j = row_features env fs (rows ! i)"
    by blast
  have "(case to_numeric env (row_get (rows ! i) g) of Some val \<Rightarrow> val | None \<Rightarrow> NaN)
          \<in> {NaN, PInf}" if "g \<in> set fs" for g
    using cell [OF that] by auto
  then have "set (row_features env fs (rows ! i)) \<subseteq> {NaN, PInf}"
    unfolding row_features_def by auto
  with j have "\<exists>j<length F. V ! j = i \<and> F ! j = row_features env fs (rows ! i)
      \<and> set (F ! j) \<subseteq> {NaN, PInf}"
    by metis
  with data to_numeric_special [of env] show ?thesis
    by simp
qed

lemma pf_le_not_gt: "pf_le s t \<Longrightarrow> \<not> pf_gt s t"
  by (cases s; cases t) simp_all

lemma severity_of_cases:
  "(pf_le s (Fin (- (1 / 10))) \<longrightarrow> severity_of s = ''high'')
   \<and> (pf_gt s (Fin (- (1 / 10))) \<longrightarrow> severity_of s = ''medium'')
   \<and> (severity_of s = ''high'' \<or> severity_of s = ''medium'')"
  using pf_le_not_gt [of s "Fin (- (1 / 10))"] by (auto simp: severity_of_def)

lemma detect_anomalies_record:
  assumes "a \<in> set (detect_anomalies env d rows)"
  shows "\<exists>F V fs Xi Xs ps sc i.
           extract_features env rows = (F, V, fs) \<and>
           run_model env d F = Inr (Xi, Xs, ps, sc) \<and>
           i < length ps \<and> ps ! i = - 1 \<and> i < length sc \<and> i < length V \<and>
           label_row env rows V fs Xi Xs sc i = Inr a"
proof -
  from assms have "detect_anomalies env d rows \<noteq> []" by auto
  with detect_anomalies_cases [of env d rows]
  obtain F V fs Xi Xs ps sc where
    ex: "extract_features env rows = (F, V, fs)"
    and run: "run_model env d F = Inr (Xi, Xs, ps, sc)"
    and loop: "label_loop env rows V fs Xi Xs sc 0 ps = Inr (detect_anomalies env d rows)"
    by blast
  from list_all2_set_right [OF label_loop_Inr [OF loop] assms]
  obtain i where i: "i \<in> set (flagged 0 ps)" "label_row env rows V fs Xi Xs sc i = Inr a"
    by blast
  from flagged_bounds [OF i(1)] have "i < length ps" "ps ! i = - 1" by simp_all
  with ex run i(2) label_row_Inr(1,3) [OF i(2)] show ?thesis by blast
qed

text \<open>
  Claim C2. Every returned record belongs to a row that the model predicted \<open>-1\<close>; its
  severity is \<^verbatim>\<open>high\<close> when that row's decision score is at most \<open>-0.1\<close> and
  \<^verbatim>\<open>medium\<close> when the score is above \<open>-0.1\<close>, and it has no other value. The float
  literal \<^verbatim>\<open>-0.1\<close> is written \<open>Fin (- (1 / 10))\<close>.
\<close>

theorem severity_follows_score:
  assumes "a \<in> set (detect_anomalies env d rows)"
  shows "\<exists>F V fs Xi Xs ps sc i.
           extract_features env rows = (F, V, fs) \<and>
           run_model env d F = Inr (Xi, Xs, ps, sc) \<and>
           i < length ps \<and> ps ! i = - 1 \<and> i < length sc \<and> i < length V \<and>
           row_index a = V ! i \<and> anomaly_score (evidence a) = sc ! i \<and>
           (pf_le (sc ! i) (Fin (- (1 / 10))) \<longrightarrow> severity a = ''high'') \<and>
           (pf_gt (sc ! i) (Fin (- (1 / 10))) \<longrightarrow> severity a = ''medium'') \<and>
           (severity a = ''high'' \<or> severity a = ''medium'')"
proof -
  from detect_anomalies_record [OF assms]
  obtain F V fs Xi Xs ps sc i where
    h: "extract_features env rows = (F, V, fs)" "run_model env d F = Inr (Xi, Xs, ps, sc)"
      "i < length ps" "ps ! i = - 1" "i < length sc" "i < length V"
    and row: "label_row env rows V fs Xi Xs sc i = Inr a"
    by blast
  from label_row_Inr(2,4,5) [OF row] severity_of_cases [of "sc ! i"]
  have "row_index a = V ! i \<and> anomaly_score (evidence a) = sc ! i \<and>
           (pf_le (sc ! i) (Fin (- (1 / 10))) \<longrightarrow> severity a = ''high'') \<and>
           (pf_gt (sc ! i) (Fin (- (1 / 10))) \<longrightarrow> severity a = ''medium'') \<and>
           (severity a = ''high'' \<or> severity a = ''medium'')"
    by simp
  with h show ?thesis by blast
qed

text \<open>
  Claim C3, amended. A flagged row whose decision score is exactly \<open>-0.1\<close> is labelled
  \<^verbatim>\<open>high\<close>: the test is \<^verbatim>\<open>score > -0.1\<close> for \<^verbatim>\<open>medium\<close>, so the boundary value
  falls on the high side.
\<close>

theorem boundary_score_is_high:
  assumes "a \<in> set (detect_anomalies env d rows)"
    and "anomaly_score (evidence a) = Fin (- (1 / 10))"
  shows "severity a = ''high''"
proof -
  from detect_anomalies_record [OF assms(1)]
  obtain V fs Xi Xs sc i where row: "label_row env rows V fs Xi Xs sc i = Inr a"
    by blast
  from label_row_Inr(4,5) [OF row] assms(2)
  have "severity a = severity_of (Fin (- (1 / 10)))"
    by simp
  then show ?thesis
    by (simp add: severity_of_def)
qed

subsection \<open>What reaches the model stage, and how many rows come back\<close>

lemma list_all2_map_eq:
  "list_all2 (\<lambda>x y. g y = f x) xs ys \<Longrightarrow> map g ys = map f xs"
  by (induction rule: list_all2_induct) simp_all

lemma strict_sorted_bounded_length:
  assumes "sorted_wrt (<) js" and "\<forall>j \<in> set js. j < (n::nat)"
  shows "length js \<le> n"
proof -
  from assms(1) have "distinct js" by (simp add: strict_sorted_iff)
  then have "length js = card (set js)" by (simp add: distinct_card)
  also from assms(2) have "\<dots> \<le> card {..<n}"
    by (intro card_mono) auto
  finally show ?thesis by simp
qed

lemma label_loop_rows:
  assumes "label_loop env rows V fs Xi Xs sc 0 ps = Inr as"
  shows "map row_index as = map ((!) V) (flagged 0 ps)"
    and "length as = length (filter (\<lambda>p. p = - 1) ps)"
    and "length as \<le> length V"
proof -
  note all = label_loop_Inr [OF assms]
  have "list_all2 (\<lambda>j a. row_index a = V ! j) (flagged 0 ps) as"
    using all by (rule list_all2_mono) (simp add: label_row_Inr)
  then show "map row_index as = map ((!) V) (flagged 0 ps)"
    by (rule list_all2_map_eq)
  from all have len: "length as = length (flagged 0 ps)"
    by (simp add: list_all2_lengthD)
  then show "length as = length (filter (\<lambda>p. p = - 1) ps)"
    by (simp add: length_flagged)
  have "\<forall>j \<in> set (flagged 0 ps). j < length V"
  proof
    fix j assume "j \<in> set (flagged 0 ps)"
    then obtain a where "label_row env rows V fs Xi Xs sc j = Inr a"
      using all by (auto simp: list_all2_conv_all_nth in_set_conv_nth)
    then show "j < length V" by (rule label_row_Inr(1))
  qed
  with sorted_flagged len show "length as \<le> length V"
    by (simp add: strict_sorted_bounded_length)
qed

lemma detect_anomalies_run:
  assumes "extract_features env rows = (F, V, fs)" and "F \<noteq> []"
    and "rows \<noteq> []" and "\<not> int (length rows) < min_samples d"
    and "run_model env d F = Inr (Xi, Xs, ps, sc)"
    and "label_loop env rows V fs Xi Xs sc 0 ps = Inr as"
  shows "detect_anomalies env d rows = as"
  using assms by (simp add: detect_anomalies_def detect_body_def exn_bind_def)


lemma anomaly_count_le_rows:
  assumes "extract_features env rows = (F, V, fs)"
  shows "length (detect_anomalies env d rows) \<le> length F
       \<and> (F \<noteq> [] \<and> rows \<noteq> [] \<and> \<not> int (length rows) < min_samples d
            \<and> run_model env d F = Inr (Xi, Xs, ps, sc)
            \<and> label_loop env rows V fs Xi Xs sc 0 ps = Inr as
          \<longrightarrow> length (detect_anomalies env d rows) = length (filter (\<lambda>p. p = - 1) ps))"
proof (intro conjI impI)
  show "length (detect_anomalies env d rows) \<le> length F"
  proof (cases "detect_anomalies env d rows = []")
    case True
    then show ?thesis by simp
  next
    case False
    with detect_anomalies_cases [of env d rows] assms
    obtain Xi' Xs' ps' sc' where ne: "F \<noteq> []"
      and loop: "label_loop env rows V fs Xi' Xs' sc' 0 ps' = Inr (detect_anomalies env d rows)"
      by auto
    from extract_features_nonempty(3) [OF assms ne] have "length F = length V"
      by (rule build_matrix_shape(1))
    with label_loop_rows(3) [OF loop] show ?thesis by simp
  qed
next
  assume h: "F \<noteq> [] \<and> rows \<noteq> [] \<and> \<not> int (length rows) < min_samples d
            \<and> run_model env d F = Inr (Xi, Xs, ps, sc)
            \<and> label_loop env rows V fs Xi Xs sc 0 ps = Inr as"
  with assms have "detect_anomalies env d rows = as"
    by (simp add: detect_anomalies_run)
  with h label_loop_rows(2) [of env rows V fs Xi Xs sc ps as]
  show "length (detect_anomalies env d rows) = length (filter (\<lambda>p. p = - 1) ps)"
    by simp
qed

subsection \<open>Runs of the engine with the stand-in library\<close>


lemma flat_rows_eq:
  "flat_rows = replicate 19 [(''Amount'', PyStr ''100'')] @ [[(''Amount'', PyStr ''100'')]]"
proof -
  have "replicate (Suc 19) x = replicate 19 x @ [x]" for x :: row
    by (simp only: replicate_Suc replicate_append_same)
  then show ?thesis by (simp add: flat_rows_def)
qed

lemma extract_inf:
  "extract_features (stub_env h) inf_rows =
     (replicate 19 [Fin 100] @ [[PInf]], [0..<20], [''Amount''])"
proof -
  have names: "feature_names_of (stub_env h) inf_rows = [''Amount'']"
    by (simp add: feature_names_of_def list_of_set_def numeric_fields_sample numeric_keys_def
        inf_rows_def is_numeric_def cell_simps lower_amount remdups_absorb)
  have "list_all (has_data (stub_env h) [''Amount'']) inf_rows"
    by (simp add: inf_rows_def has_data_def row_get_def to_numeric_def cell_simps list_all_iff)
  from build_matrix_all_data [OF this, of 0] show ?thesis
    by (simp add: extract_features_def names)
       (simp add: inf_rows_def row_features_def row_get_def to_numeric_def cell_simps
         stub_env_def)
qed

lemma imputer_inf:
  "imputer_fit_transform (stub_env h) (replicate 19 [Fin 100] @ [[PInf]]) = Inl ValueError"
  by (simp add: stub_env_def has_inf_def)

lemma extract_category: "extract_features (stub_env h) category_rows = ([], [], [])"
  by (simp add: extract_features_def feature_names_of_def list_of_set_def numeric_fields_sample
      numeric_keys_def category_rows_def is_numeric_def cell_simps)

lemma names_pair1: "feature_names_of (stub_env hash1) pair_rows = [''A'', ''B'']"
  by (simp add: feature_names_of_def list_of_set_def numeric_fields_sample numeric_keys_def
      pair_rows_def is_numeric_def cell_simps lower_amount remdups_absorb stub_env_def hash1_def)

lemma names_pair2: "feature_names_of (stub_env hash2) pair_rows = [''B'', ''A'']"
  by (simp add: feature_names_of_def list_of_set_def numeric_fields_sample numeric_keys_def
      pair_rows_def is_numeric_def cell_simps lower_amount remdups_absorb stub_env_def hash2_def)

lemma extract_pair:
  assumes "feature_names_of (stub_env h) pair_rows = [x, y]" and "{x, y} = {''A'', ''B''}"
  shows "extract_features (stub_env h) pair_rows =
     (replicate 19 [Fin 100, Fin 100] @ [[Fin 100000, Fin 100000]], [0..<20], [x, y])"
proof -
  from assms(2) have xy: "(x = ''A'' \<and> y = ''B'') \<or> (x = ''B'' \<and> y = ''A'')"
    by (auto simp: doubleton_eq_iff)
  then have "list_all (has_data (stub_env h) [x, y]) pair_rows"
    by (auto simp: pair_rows_def has_data_def row_get_def to_numeric_def cell_simps list_all_iff)
  from build_matrix_all_data [OF this, of 0] xy show ?thesis
    by (simp add: extract_features_def assms(1))
       (auto simp: pair_rows_def row_features_def row_get_def to_numeric_def cell_simps
         stub_env_def)
qed

lemma run_model_pair:
  "run_model (stub_env h) d (replicate 19 [Fin 100, Fin 100] @ [[Fin 100000, Fin 100000]]) =
     Inr (replicate 19 [Fin 100, Fin 100] @ [[Fin 100000, Fin 100000]],
          replicate 19 [Fin 100, Fin 100] @ [[Fin 100000, Fin 100000]],
          replicate 19 1 @ [- 1], replicate 19 (Fin (1 / 10)) @ [Fin (- (1 / 10))])"
  by (simp add: run_model_def stub_env_def exn_bind_def has_inf_def outlying_def list_ex_iff)

lemma key_feature_pair:
  assumes "feature_names_of (stub_env h) pair_rows = [x, y]" and "{x, y} = {''A'', ''B''}"
  shows "map (key_feature \<circ> evidence) (detect_anomalies (stub_env h) (init None) pair_rows) = [x]"
proof -
  have len: "length pair_rows = 20" "pair_rows \<noteq> []"
    by (simp_all add: pair_rows_def)
  then show ?thesis
    by (simp add: detect_anomalies_def init_def detect_body_def extract_pair [OF assms]
        run_model_pair label_loop_skip exn_bind_def label_row_def item_def nth_append
        np_argmax_def)
qed

lemma detect_amount': "detect_anomalies (stub_env h) (init None) amount_rows = [amount_anomaly]"
  by (simp add: detect_amount amount_anomaly_def)

lemma short_gate: "int (length short_rows) < min_samples (init None)"
  by (simp add: short_rows_def init_def)


theorem insufficient_data_is_no_op_witness:
  "int (length short_rows) < min_samples (init None)
   \<and> detect_anomalies (stub_env hash1) (init None) short_rows = []
   \<and> snd (snd (extract_features (stub_env hash1) category_rows)) = []
   \<and> detect_anomalies (stub_env hash1) (init None) category_rows = []"
  using insufficient_data_is_no_op [where rows = short_rows and d = "init None" and env = "stub_env hash1"]
    insufficient_data_is_no_op [where rows = category_rows and d = "init None" and env = "stub_env hash1"]
    short_gate
  by (simp add: extract_category)

theorem faults_degrade_to_empty_witness:
  "extract_features (stub_env hash1) inf_rows = (replicate 19 [Fin 100] @ [[PInf]], [0..<20], [''Amount''])
   \<and> imputer_fit_transform (stub_env hash1) (replicate 19 [Fin 100] @ [[PInf]]) = Inl ValueError
   \<and> detect_anomalies (stub_env hash1) (init None) inf_rows = []"
  using faults_degrade_to_empty [where d = "init None", OF extract_inf [of hash1] disjI1 [OF imputer_inf [of hash1]]]
    extract_inf [of hash1] imputer_inf [of hash1]
  by simp

theorem feature_selection_by_sample_witness:
  "''Amount'' \<in> set (snd (snd (extract_features (stub_env hash1) amount_rows)))
   \<and> snd (snd (extract_features (stub_env hash1) (take 50 amount_rows))) = [''Amount'']"
proof -
  note sel = feature_selection_by_sample
    [where k = "''Amount''" and env = "stub_env hash1" and rows = amount_rows]
  from sel have "snd (snd (extract_features (stub_env hash1) (take 50 amount_rows)))
      = snd (snd (extract_features (stub_env hash1) amount_rows))"
    by simp
  then show ?thesis
    by (simp add: extract_amount)
qed

theorem nan_inf_cells_count_as_data_witness:
  "extract_features (stub_env hash1) inf_rows = (replicate 19 [Fin 100] @ [[PInf]], [0..<20], [''Amount''])
   \<and> row_get (inf_rows ! 19) ''Amount'' = PyStr ''inf''
   \<and> has_data (stub_env hash1) [''Amount''] (inf_rows ! 19)
   \<and> row_features (stub_env hash1) [''Amount''] (inf_rows ! 19) = [PInf]"
proof -
  have cell: "row_get (inf_rows ! 19) ''Amount'' = PyStr ''inf''"
    by (simp add: inf_rows_def nth_append row_get_def)
  then have "\<forall>f \<in> set [''Amount'']. row_get (inf_rows ! 19) f
      \<in> {PyStr ''nan'', PyStr ''inf'', PyStr ''infinity''}"
    by simp
  from nan_inf_cells_count_as_data [OF extract_inf [of hash1] _ _ this]
  have "has_data (stub_env hash1) [''Amount''] (inf_rows ! 19)"
    by (simp add: inf_rows_def)
  moreover have "row_features (stub_env hash1) [''Amount''] (inf_rows ! 19) = [PInf]"
    using cell by (simp add: row_features_def to_numeric_def cell_simps)
  ultimately show ?thesis
    using cell extract_inf [of hash1] by simp
qed

theorem severity_follows_score_witness:
  "amount_anomaly \<in> set (detect_anomalies (stub_env hash1) (init None) amount_rows)
   \<and> pf_le (anomaly_score (evidence amount_anomaly)) (Fin (- (1 / 10)))
   \<and> severity amount_anomaly = ''high''"
  using severity_follows_score [of amount_anomaly "stub_env hash1" "init None" amount_rows]
  by (simp add: detect_amount') (simp add: amount_anomaly_def)

theorem boundary_score_is_high_witness:
  "amount_anomaly \<in> set (detect_anomalies (stub_env hash1) (init None) amount_rows)
   \<and> anomaly_score (evidence amount_anomaly) = Fin (- (1 / 10))
   \<and> severity amount_anomaly = ''high''"
proof -
  have 1: "amount_anomaly \<in> set (detect_anomalies (stub_env hash1) (init None) amount_rows)"
    by (simp add: detect_amount')
  have 2: "anomaly_score (evidence amount_anomaly) = Fin (- (1 / 10))"
    by (simp add: amount_anomaly_def)
  from boundary_score_is_high [OF 1 2] 1 2 show ?thesis by simp
qed

text \<open>
  Claim C3 as stated fails: a flagged row with decision score exactly \<open>-0.1\<close> is not
  labelled \<^verbatim>\<open>medium\<close>.
\<close>

theorem boundary_score_counterexample:
  "severity_of (Fin (- (1 / 10))) = ''high''
   \<and> map (anomaly_score \<circ> evidence) (detect_anomalies (stub_env hash1) (init None) amount_rows)
       = [Fin (- (1 / 10))]
   \<and> map severity (detect_anomalies (stub_env hash1) (init None) amount_rows) \<noteq> [''medium'']"
  by (simp add: severity_of_def detect_amount)



subsection \<open>The number of records and the contamination\<close>

lemma below_quantile_index:
  assumes q: "0 \<le> q" "q \<le> 1" and a: "sorted a" and n: "a \<noteq> []"
    and i: "i < length a" and k: "nat \<lceil>q * real (length a - 1)\<rceil> \<le> i"
  shows "a ! nat \<lfloor>q * real (length a - 1)\<rfloor>
         + (q * real (length a - 1) - real (nat \<lfloor>q * real (length a - 1)\<rfloor>))
           * (a ! min (Suc (nat \<lfloor>q * real (length a - 1)\<rfloor>)) (length a - 1)
              - a ! nat \<lfloor>q * real (length a - 1)\<rfloor>) \<le> a ! i"
proof -
  define h where "h = q * real (length a - 1)"
  define lo where "lo = nat \<lfloor>h\<rfloor>"
  define hi where "hi = min (Suc lo) (length a - 1)"
  have h0: "0 \<le> h" using q by (simp add: h_def)
  have h1: "h \<le> real (length a - 1)"
    using q by (simp add: h_def mult_left_le_one_le)
  have lo_real: "real lo = of_int \<lfloor>h\<rfloor>" using h0 by (simp add: lo_def)
  have lo_le: "real lo \<le> h" using lo_real by simp
  have f1: "h - real lo < 1" using lo_real by linarith
  have lo_n: "lo \<le> length a - 1"
  proof -
    from lo_le h1 have "real lo \<le> real (length a - 1)" by linarith
    then show ?thesis by simp
  qed
  have hi_n: "hi < length a" using n by (cases a) (simp_all add: hi_def)
  have lo_hi: "lo \<le> hi" using lo_n by (simp add: hi_def)
  have alo_hi: "a ! lo \<le> a ! hi"
    using a lo_hi hi_n by (simp add: sorted_nth_mono)
  have k': "nat \<lceil>h\<rceil> \<le> i" using k by (simp add: h_def)
  have "a ! lo + (h - real lo) * (a ! hi - a ! lo) \<le> a ! i"
  proof (cases "h = real lo")
    case True
    then have "nat \<lceil>h\<rceil> = lo" by simp
    with k' have "lo \<le> i" by simp
    with a i have "a ! lo \<le> a ! i" by (simp add: sorted_nth_mono)
    with True show ?thesis by simp
  next
    case False
    with lo_le have lt: "real lo < h" by simp
    then have "\<lceil>h\<rceil> = int lo + 1"
      using f1 by (intro ceiling_unique) auto
    then have "nat \<lceil>h\<rceil> = Suc lo" by simp
    with k' have Suc_i: "Suc lo \<le> i" by simp
    with i have "Suc lo \<le> length a - 1" by simp
    then have hi: "hi = Suc lo" by (simp add: hi_def)
    from a Suc_i i hi have "a ! hi \<le> a ! i" by (simp add: sorted_nth_mono)
    moreover have "(h - real lo) * (a ! hi - a ! lo) \<le> 1 * (a ! hi - a ! lo)"
      using f1 alo_hi by (intro mult_right_mono) auto
    ultimately show ?thesis by simp
  qed
  then show ?thesis by (simp add: h_def lo_def hi_def)
qed

lemma count_below_quantile:
  assumes "0 \<le> q" "q \<le> 1" "xs \<noteq> []"
  shows "length (filter (\<lambda>s. s < quantile q xs) xs) \<le> nat \<lceil>q * real (length xs - 1)\<rceil>"
proof -
  let ?a = "sort xs" and ?t = "quantile q xs" and ?K = "nat \<lceil>q * real (length xs - 1)\<rceil>"
  have "length (filter (\<lambda>s. s < ?t) xs) = length (filter (\<lambda>s. s < ?t) ?a)"
    by (simp add: filter_sort)
  also have "\<dots> = card {i. i < length ?a \<and> ?a ! i < ?t}"
    by (rule length_filter_conv_card)
  also have "\<dots> \<le> card {..<?K}"
  proof (rule card_mono)
    show "{i. i < length ?a \<and> ?a ! i < ?t} \<subseteq> {..<?K}"
    proof
      fix i assume "i \<in> {i. i < length ?a \<and> ?a ! i < ?t}"
      then have i: "i < length ?a" and lt: "?a ! i < ?t" by simp_all
      have "i < ?K"
      proof (rule ccontr)
        assume "\<not> i < ?K"
        then have "?K \<le> i" by (simp only: not_less)
        moreover have "sorted ?a"
          by simp
        moreover have "?a \<noteq> []"
        proof
          assume "?a = []"
          then have "length ?a = 0" by simp
          with assms(3) show False by simp
        qed
        ultimately have "?t \<le> ?a ! i"
          using below_quantile_index [of q ?a i] assms(1,2) i
          by (simp add: quantile_def Let_def)
        with lt show False by simp
      qed
      then show "i \<in> {..<?K}" by simp
    qed
  qed simp
  finally show ?thesis by simp
qed

lemma run_model_cutoff:
  assumes "run_model (cutoff_env score env) d F = Inr (Xi, Xs, ps, sc)"
  shows "\<exists>raw. raw \<noteq> [] \<and> contamination d \<le> 1 \<and>
           ps = map (\<lambda>s. if s - quantile (contamination d) raw < 0 then - 1 else 1) raw"
  using assms
  by (auto simp: run_model_def cutoff_env_def cutoff_fit_predict_def exn_bind_Inr Let_def
      split: if_splits)

lemma count_cutoff_predictions:
  fixes t :: real
  shows "length (filter (\<lambda>p. p = - 1) (map (\<lambda>s. if s - t < 0 then - 1 else (1::int)) raw))
     = length (filter (\<lambda>s. s < t) raw)"
  by (induction raw) auto

lemma ceiling_le_nearest:
  fixes y :: real and r :: int
  assumes "x \<le> y" and "\<bar>of_int r - y\<bar> \<le> 1 / 2"
  shows "\<lceil>x\<rceil> \<le> r + 1"
proof -
  have "of_int \<lceil>x\<rceil> < x + 1" by linarith
  moreover have "y \<le> of_int r + 1 / 2"
    using assms(2) unfolding abs_le_iff by linarith
  ultimately have "(of_int \<lceil>x\<rceil> :: real) < of_int r + 2"
    using assms(1) by linarith
  then have "(of_int \<lceil>x\<rceil> :: real) < of_int (r + 2)" by simp
  then have "\<lceil>x\<rceil> < r + 2" by (simp only: of_int_less_iff)
  then show ?thesis by simp
qed

text \<open>
  Claim C5, amended. With the cutoff at the contamination-quantile of the scores, a
  contamination that is not negative and one prediction per matrix row, the number of
  returned records is at most \<open>\<lceil>contamination * (n - 1)\<rceil>\<close> for \<open>n\<close> matrix rows. That is
  at most one more than \<open>contamination * n\<close> rounded to a nearest integer, whichever
  way a tie is rounded, and it never exceeds \<open>n\<close>. Equality with the rounded value is
  not promised.
\<close>

theorem anomaly_count_within_contamination:
  assumes ex: "extract_features (cutoff_env score env) rows = (F, V, fs)"
    and c: "0 \<le> contamination d"
    and shape: "\<And>Xi Xs ps sc.
       run_model (cutoff_env score env) d F = Inr (Xi, Xs, ps, sc) \<Longrightarrow> length ps = length F"
  shows "length (detect_anomalies (cutoff_env score env) d rows) \<le> length F
       \<and> int (length (detect_anomalies (cutoff_env score env) d rows))
           \<le> \<lceil>contamination d * real (length F - 1)\<rceil>
       \<and> int (length (detect_anomalies (cutoff_env score env) d rows))
           \<le> round (contamination d * real (length F)) + 1
       \<and> (\<forall>r. \<bar>real_of_int r - contamination d * real (length F)\<bar> \<le> 1 / 2
             \<longrightarrow> int (length (detect_anomalies (cutoff_env score env) d rows)) \<le> r + 1)"
proof -
  let ?E = "cutoff_env score env" and ?c = "contamination d" and ?n = "length F"
  let ?out = "detect_anomalies ?E d rows"
  have h0: "0 \<le> ?c * real (?n - 1)" using c by simp
  have le: "?c * real (?n - 1) \<le> ?c * real ?n"
    using c by (intro mult_left_mono) simp_all
  have rows: "length ?out \<le> ?n"
    using anomaly_count_le_rows [OF ex] by blast
  have ceil: "int (length ?out) \<le> \<lceil>?c * real (?n - 1)\<rceil>"
  proof (cases "?out = []")
    case True
    with h0 show ?thesis by simp
  next
    case False
    with detect_anomalies_cases [of ?E d rows] ex
    obtain Xi Xs ps sc where run: "run_model ?E d F = Inr (Xi, Xs, ps, sc)"
      and loop: "label_loop ?E rows V fs Xi Xs sc 0 ps = Inr ?out"
      by auto
    from run_model_cutoff [OF run] obtain raw where raw: "raw \<noteq> []"
      and c1: "?c \<le> 1"
      and ps: "ps = map (\<lambda>s. if s - quantile ?c raw < 0 then - 1 else 1) raw"
      by blast
    from shape [OF run] ps have n: "length raw = ?n" by simp
    have "length ?out = length (filter (\<lambda>s. s < quantile ?c raw) raw)"
      using label_loop_rows(2) [OF loop] by (simp only: ps count_cutoff_predictions)
    also have "\<dots> \<le> nat \<lceil>?c * real (length raw - 1)\<rceil>"
      using c c1 raw by (rule count_below_quantile)
    finally have "length ?out \<le> nat \<lceil>?c * real (?n - 1)\<rceil>"
      by (simp add: n)
    with h0 show ?thesis by linarith
  qed
  have near: "int (length ?out) \<le> r + 1"
    if "\<bar>real_of_int r - ?c * real ?n\<bar> \<le> 1 / 2" for r
    using ceil ceiling_le_nearest [OF le that] by linarith
  have "\<bar>real_of_int (round (?c * real ?n)) - ?c * real ?n\<bar> \<le> 1 / 2"
    by (rule of_int_round_abs_le)
  from near [OF this] rows ceil near show ?thesis
    by blast
qed

lemma extract_amount_any:
  "extract_features env amount_rows =
     (replicate 19 [round_double env 100] @ [[round_double env 100000]], [0..<20], [''Amount''])"
proof -
  have names: "feature_names_of env amount_rows = [''Amount'']"
    by (simp add: feature_names_of_def list_of_set_def numeric_fields_sample numeric_keys_def
        amount_rows_def is_numeric_def cell_simps lower_amount remdups_absorb)
  have "list_all (has_data env [''Amount'']) amount_rows"
    by (simp add: amount_rows_def has_data_def row_get_def to_numeric_def cell_simps list_all_iff)
  from build_matrix_all_data [OF this, of 0] show ?thesis
    by (simp add: extract_features_def names)
       (simp add: amount_rows_def row_features_def row_get_def to_numeric_def cell_simps)
qed

lemma extract_flat_any:
  "extract_features env flat_rows =
     (replicate 19 [round_double env 100] @ [[round_double env 100]], [0..<20], [''Amount''])"
proof -
  have names: "feature_names_of env flat_rows = [''Amount'']"
    by (simp add: feature_names_of_def list_of_set_def numeric_fields_sample numeric_keys_def
        flat_rows_eq is_numeric_def cell_simps lower_amount remdups_absorb)
  have "list_all (has_data env [''Amount'']) flat_rows"
    by (simp add: flat_rows_eq has_data_def row_get_def to_numeric_def cell_simps list_all_iff)
  from build_matrix_all_data [OF this, of 0] show ?thesis
    by (simp add: extract_features_def names)
       (simp add: flat_rows_eq row_features_def row_get_def to_numeric_def cell_simps)
qed

lemma cutoff_env_simps:
  "round_double (cutoff_env score (stub_env h)) = Fin"
  "imputer_fit_transform (cutoff_env score (stub_env h)) = imputer_fit_transform (stub_env h)"
  "scaler_fit_transform (cutoff_env score (stub_env h)) = Inr"
  "iforest_fit_predict (cutoff_env score env) = cutoff_fit_predict score"
  "iforest_decision_function (cutoff_env score env) = cutoff_decision_function score"
  by (simp_all add: cutoff_env_def stub_env_def)

lemma imputer_stub_finite:
  "imputer_fit_transform (stub_env h) (replicate 19 [Fin x] @ [[Fin y]])
     = Inr (replicate 19 [Fin x] @ [[Fin y]])"
  by (simp add: stub_env_def has_inf_def list_ex_iff)

lemma quantile_tied:
  "quantile (1 / 2) (replicate 19 x @ [x]) = x"
proof -
  have "sorted (replicate 19 x @ [x])"
    by (simp add: sorted_append)
  then have "sort (replicate 19 x @ [x]) = replicate 19 x @ [x]"
    by (rule sorted_sort_id)
  then show ?thesis
    by (simp add: quantile_def nth_append)
qed

lemma run_model_tied:
  "run_model (cutoff_env tied_score (stub_env h)) half_detector
       (replicate 19 [Fin 100] @ [[Fin 100]]) =
     Inr (replicate 19 [Fin 100] @ [[Fin 100]], replicate 19 [Fin 100] @ [[Fin 100]],
          replicate 19 1 @ [1], replicate 19 (Fin 0) @ [Fin 0])"
  by (simp add: run_model_def cutoff_env_simps imputer_stub_finite exn_bind_def
      cutoff_fit_predict_def cutoff_decision_function_def tied_score_def
      half_detector_def init_def quantile_tied)

lemma detect_tied:
  "detect_anomalies (cutoff_env tied_score (stub_env h)) half_detector flat_rows = []"
  by (simp add: detect_anomalies_def detect_body_def extract_flat_any cutoff_env_simps
      run_model_tied exn_bind_def label_loop_skip)

text \<open>
  Claim C5 as stated fails: on twenty identical rows with contamination 0.5 every score
  ties with the cutoff, no row is predicted \<open>-1\<close> and nothing is returned, while
  \<open>round (0.5 * 20) = 10\<close>.
\<close>

theorem contamination_count_counterexample:
  "length (fst (extract_features (cutoff_env tied_score (stub_env hash1)) flat_rows)) = 20
   \<and> \<not> int (length flat_rows) < min_samples half_detector
   \<and> length (detect_anomalies (cutoff_env tied_score (stub_env hash1)) half_detector flat_rows) = 0
   \<and> round (contamination half_detector * 20) = 10"
proof -
  have "length flat_rows = 20"
    by (simp add: flat_rows_def)
  moreover have "min_samples half_detector = 20"
    by (simp add: half_detector_def init_def)
  moreover have "round (contamination half_detector * 20) = 10"
    by (simp add: half_detector_def init_def)
  ultimately show ?thesis
    by (simp add: extract_flat_any detect_tied)
qed

lemma sort_far:
  fixes x y :: real
  assumes "x < y"
  shows "sort (replicate n y @ [x]) = x # replicate n y"
proof (induction n)
  case 0
  show ?case by simp
next
  case (Suc n)
  have "insort y (replicate n y) = y # replicate n y"
    by (cases n) simp_all
  with Suc assms show ?case by simp
qed

lemma quantile_far:
  "quantile (1 / 20) (replicate 19 (- (1 / 2)) @ [- (7 / 10)]) = - (51 / 100)"
  by (simp add: quantile_def sort_far nth_append)

lemma run_model_far:
  "run_model (cutoff_env far_score (stub_env h)) (init None)
       (replicate 19 [Fin 100] @ [[Fin 100000]]) =
     Inr (replicate 19 [Fin 100] @ [[Fin 100000]], replicate 19 [Fin 100] @ [[Fin 100000]],
          replicate 19 1 @ [- 1], replicate 19 (Fin (1 / 100)) @ [Fin (- (19 / 100))])"
  by (simp add: run_model_def cutoff_env_simps imputer_stub_finite exn_bind_def
      cutoff_fit_predict_def cutoff_decision_function_def far_score_def outlying_def
      init_def quantile_far)

lemma detect_far_length:
  "length (detect_anomalies (cutoff_env far_score (stub_env h)) (init None) amount_rows) = 1"
proof -
  have len: "length amount_rows = 20" "amount_rows \<noteq> []"
    by (simp_all add: amount_rows_def)
  have "\<not> int (length amount_rows) < min_samples (init None)"
    by (simp add: len init_def)
  then show ?thesis
    using len
    by (simp add: detect_anomalies_def detect_body_def extract_amount_any cutoff_env_simps
        run_model_far label_loop_skip exn_bind_def label_row_def item_def nth_append
        np_argmax_def)
qed

theorem anomaly_count_within_contamination_witness:
  "extract_features (cutoff_env far_score (stub_env hash1)) amount_rows
       = (replicate 19 [Fin 100] @ [[Fin 100000]], [0..<20], [''Amount''])
   \<and> 0 \<le> contamination (init None)
   \<and> run_model (cutoff_env far_score (stub_env hash1)) (init None)
         (replicate 19 [Fin 100] @ [[Fin 100000]]) =
       Inr (replicate 19 [Fin 100] @ [[Fin 100000]], replicate 19 [Fin 100] @ [[Fin 100000]],
            replicate 19 1 @ [- 1], replicate 19 (Fin (1 / 100)) @ [Fin (- (19 / 100))])
   \<and> length (detect_anomalies (cutoff_env far_score (stub_env hash1)) (init None) amount_rows) = 1
   \<and> int (length (detect_anomalies (cutoff_env far_score (stub_env hash1)) (init None) amount_rows))
         \<le> \<lceil>contamination (init None) * real (20 - 1)\<rceil>
   \<and> int (length (detect_anomalies (cutoff_env far_score (stub_env hash1)) (init None) amount_rows))
         \<le> round (contamination (init None) * real 20) + 1"
proof -
  let ?E = "cutoff_env far_score (stub_env hash1)"
  let ?F = "replicate 19 [Fin 100] @ [[Fin 100000]]"
  have ex: "extract_features ?E amount_rows = (?F, [0..<20], [''Amount''])"
    by (simp add: extract_amount_any cutoff_env_simps)
  have c: "0 \<le> contamination (init None)"
    by (simp add: init_def)
  have shape: "length ps = length ?F"
    if "run_model ?E (init None) ?F = Inr (Xi, Xs, ps, sc)" for Xi Xs ps sc
    using that by (auto simp: run_model_far)
  from anomaly_count_within_contamination [OF ex c shape] ex c run_model_far [of hash1]
    detect_far_length [of hash1]
  show ?thesis
    by simp
qed

subsection \<open>Dependence on the string hash\<close>

lemma label_row_key_feature:
  assumes "label_row env rows ri fs Xi Xs sc i = Inr a"
  shows "\<exists>m. np_argmax (map np_abs (Xs ! i)) = Inr m \<and> m < length fs
             \<and> key_feature (evidence a) = fs ! m"
  using assms by (auto simp: label_row_def exn_bind_Inr item_Inr)

lemma names_pair_hash1:
  "str_hash env = hash1 \<Longrightarrow> feature_names_of env pair_rows = [''A'', ''B'']"
  by (simp add: feature_names_of_def list_of_set_def numeric_fields_sample numeric_keys_def
      pair_rows_def is_numeric_def cell_simps lower_amount remdups_absorb hash1_def)

lemma names_pair_hash2:
  "str_hash env = hash2 \<Longrightarrow> feature_names_of env pair_rows = [''B'', ''A'']"
  by (simp add: feature_names_of_def list_of_set_def numeric_fields_sample numeric_keys_def
      pair_rows_def is_numeric_def cell_simps lower_amount remdups_absorb hash2_def)

lemma extract_pair_any:
  assumes "feature_names_of env pair_rows = [x, y]" and "{x, y} = {''A'', ''B''}"
  shows "extract_features env pair_rows =
     (replicate 19 [round_double env 100, round_double env 100]
        @ [[round_double env 100000, round_double env 100000]], [0..<20], [x, y])"
proof -
  from assms(2) have xy: "(x = ''A'' \<and> y = ''B'') \<or> (x = ''B'' \<and> y = ''A'')"
    by (auto simp: doubleton_eq_iff)
  then have "list_all (has_data env [x, y]) pair_rows"
    by (auto simp: pair_rows_def has_data_def row_get_def to_numeric_def cell_simps list_all_iff)
  from build_matrix_all_data [OF this, of 0] xy show ?thesis
    by (simp add: extract_features_def assms(1))
       (auto simp: pair_rows_def row_features_def row_get_def to_numeric_def cell_simps)
qed

lemma run_model_hash:
  "run_model (env\<lparr>str_hash := h\<rparr>) d X = run_model env d X"
  by (simp add: run_model_def)

text \<open>
  Claim C4. The claim asks that the output is fixed by the rows and the configuration.
  The feature order is the iteration order of a \<^verbatim>\<open>set\<close> of strings, which follows the
  string hash of the interpreter. On \<open>pair_rows\<close>, whatever the libraries compute, two
  interpreters whose hashes order \<^verbatim>\<open>A\<close> and \<^verbatim>\<open>B\<close> differently return different
  outputs as soon as one of them returns any record: the columns tie, so
  \<open>key_feature\<close> is the first feature name, and that name differs.
\<close>

theorem output_depends_on_string_hash:
  assumes "detect_anomalies (env\<lparr>str_hash := hash1\<rparr>) d pair_rows \<noteq> []"
  shows "detect_anomalies (env\<lparr>str_hash := hash1\<rparr>) d pair_rows
       \<noteq> detect_anomalies (env\<lparr>str_hash := hash2\<rparr>) d pair_rows"
proof
  let ?e1 = "env\<lparr>str_hash := hash1\<rparr>" and ?e2 = "env\<lparr>str_hash := hash2\<rparr>"
  let ?P = "replicate 19 [round_double env 100, round_double env 100]
        @ [[round_double env 100000, round_double env 100000]]"
  assume eq: "detect_anomalies ?e1 d pair_rows = detect_anomalies ?e2 d pair_rows"
  from assms obtain a where a1: "a \<in> set (detect_anomalies ?e1 d pair_rows)"
    by (cases "detect_anomalies ?e1 d pair_rows") auto
  with eq have a2: "a \<in> set (detect_anomalies ?e2 d pair_rows)"
    by simp
  have ex1: "extract_features ?e1 pair_rows = (?P, [0..<20], [''A'', ''B''])"
    using extract_pair_any [OF names_pair_hash1 [of ?e1]] by simp
  have ex2: "extract_features ?e2 pair_rows = (?P, [0..<20], [''B'', ''A''])"
    using extract_pair_any [OF names_pair_hash2 [of ?e2]] by (simp add: insert_commute)
  from detect_anomalies_record [OF a1] ex1
  obtain Xi Xs ps sc i where run1: "run_model ?e1 d ?P = Inr (Xi, Xs, ps, sc)"
    and i: "i < 20" and row1: "label_row ?e1 pair_rows [0..<20] [''A'', ''B''] Xi Xs sc i = Inr a"
    by auto
  from detect_anomalies_record [OF a2] ex2
  obtain Xi' Xs' ps' sc' i' where run2: "run_model ?e2 d ?P = Inr (Xi', Xs', ps', sc')"
    and i': "i' < 20" and row2: "label_row ?e2 pair_rows [0..<20] [''B'', ''A''] Xi' Xs' sc' i' = Inr a"
    by auto
  from run1 run2 have same: "Xs' = Xs"
    by (simp add: run_model_hash)
  from label_row_Inr(2) [OF row1] label_row_Inr(2) [OF row2] i i' have "i' = i"
    by simp
  from label_row_key_feature [OF row1]
  obtain m where m: "np_argmax (map np_abs (Xs ! i)) = Inr m" "m < 2"
    "key_feature (evidence a) = [''A'', ''B''] ! m"
    by auto
  from label_row_key_feature [OF row2] same \<open>i' = i\<close> m(1)
  have "key_feature (evidence a) = [''B'', ''A''] ! m"
    by auto
  with m(2,3) show False
    by (cases m) (auto simp: less_Suc_eq)
qed

lemma stub_env_hash: "(stub_env h)\<lparr>str_hash := h'\<rparr> = stub_env h'"
  by (simp add: stub_env_def)

theorem output_depends_on_string_hash_witness:
  "detect_anomalies ((stub_env hash1)\<lparr>str_hash := hash1\<rparr>) (init None) pair_rows \<noteq> []
   \<and> detect_anomalies ((stub_env hash1)\<lparr>str_hash := hash1\<rparr>) (init None) pair_rows
       \<noteq> detect_anomalies ((stub_env hash1)\<lparr>str_hash := hash2\<rparr>) (init None) pair_rows
   \<and> map (key_feature \<circ> evidence) (detect_anomalies (stub_env hash1) (init None) pair_rows) = [''A'']
   \<and> map (key_feature \<circ> evidence) (detect_anomalies (stub_env hash2) (init None) pair_rows) = [''B'']"
proof -
  have k1: "map (key_feature \<circ> evidence) (detect_anomalies (stub_env hash1) (init None) pair_rows) = [''A'']"
    using key_feature_pair [OF names_pair1] by simp
  have k2: "map (key_feature \<circ> evidence) (detect_anomalies (stub_env hash2) (init None) pair_rows) = [''B'']"
    using key_feature_pair [OF names_pair2] by (simp add: insert_commute)
  from k1 have ne: "detect_anomalies ((stub_env hash1)\<lparr>str_hash := hash1\<rparr>) (init None) pair_rows \<noteq> []"
    by (auto simp: stub_env_hash)
  from output_depends_on_string_hash [OF ne] ne k1 k2 show ?thesis
    by simp
qed

end
